theory Spec2Isabelle
  imports Complex_Main "HOL-Library.AList" "HOL-Library.Char_ord" "HOL-Library.List_Lexorder"
begin

section \<open>Data model of rfmizer.py\<close>

text \<open>
  Dates. \<^verbatim>\<open>parse_date\<close> returns a \<^verbatim>\<open>datetime\<close> at midnight, the two periods of the
  configuration are \<^verbatim>\<open>timedelta\<close>s of whole days, and the only arithmetic on dates is
  comparison, subtraction of a period and \<^verbatim>\<open>(a - b).days\<close>. A date is therefore the
  number of days since 2000-01-01 (negative before it). The two constants are the
  values of \<^verbatim>\<open>parse_date('2000-01-01')\<close> and \<^verbatim>\<open>parse_date('2200-01-01')\<close>: the 200
  years between them hold 49 leap days.

  Order values are Python floats, modelled by rationals. The sums of \<^verbatim>\<open>load_input\<close> and
  the average of \<^verbatim>\<open>metricize\<close> are taken exactly: the statements about them say which
  values are added and which dates are read. The sums and quotients of \<^verbatim>\<open>rationize\<close>
  are tested against zero by the divisions of lines 293 and 299, so there every
  operation rounds (see \<open>fl_add\<close> and \<open>fl_div\<close> below). Infinities and NaN are not
  modelled.
\<close>

type_synonym date = int

definition date_2000_01_01 :: date where
  "date_2000_01_01 = 0"

definition date_2200_01_01 :: date where
  "date_2200_01_01 = 73049"

datatype py_error = KeyError | IndexError | ZeroDivisionError | StopIteration

text \<open>
  The script runs under Python 2 and Python 3 (it imports \<^verbatim>\<open>builtins\<close> and tests
  \<^verbatim>\<open>sys.version\<close>). The operator \<^verbatim>\<open>/\<close> on two ints floors in Python 2 and is the true
  division in Python 3; both raise ZeroDivisionError on a zero divisor.
\<close>

datatype pyver = Py2 | Py3

definition py_div :: "pyver \<Rightarrow> int \<Rightarrow> int \<Rightarrow> py_error + rat" where
  "py_div v a b =
     (if b = 0 then Inl ZeroDivisionError
      else Inr (case v of Py2 \<Rightarrow> of_int (a div b) | Py3 \<Rightarrow> of_int a / of_int b))"

text \<open>
  The float operations of \<^verbatim>\<open>rationize\<close>. \<open>rnd\<close> is the rounding of an exact result to a
  double, which the platform fixes; a sum with a summand zero and a quotient of zero
  are exact. \<^verbatim>\<open>sum\<close> starts from the int 0 and adds from left to right.
\<close>

definition fl_add :: "(rat \<Rightarrow> rat) \<Rightarrow> rat \<Rightarrow> rat \<Rightarrow> rat" where
  "fl_add rnd a b = (if a = 0 then b else if b = 0 then a else rnd (a + b))"

definition fl_div :: "(rat \<Rightarrow> rat) \<Rightarrow> rat \<Rightarrow> rat \<Rightarrow> py_error + rat" where
  "fl_div rnd a b =
     (if b = 0 then Inl ZeroDivisionError else Inr (if a = 0 then 0 else rnd (a / b)))"

definition fl_sum :: "(rat \<Rightarrow> rat) \<Rightarrow> rat list \<Rightarrow> rat" where
  "fl_sum rnd xs = fold (\<lambda>x acc. fl_add rnd acc x) xs 0"

text \<open>
  \<^verbatim>\<open>RFM_DIMENSIONS\<close> is a set of three strings; \<^verbatim>\<open>dim_name\<close> gives the string, which
  is the key under which a segment number is stored in a user's \<^verbatim>\<open>dimensions\<close> dict.
  A metric is \<^verbatim>\<open>None\<close>, the string \<^verbatim>\<open>'stale'\<close> or a number.
\<close>

datatype dimension = Recency | Frequency | Monetary

fun dim_name :: "dimension \<Rightarrow> string" where
  "dim_name Recency = ''recency''"
| "dim_name Frequency = ''frequency''"
| "dim_name Monetary = ''monetary''"

datatype metric = Null | Stale | Num rat

record metrics =
  recency :: metric
  frequency :: metric
  monetary :: metric

fun metric_of :: "dimension \<Rightarrow> metrics \<Rightarrow> metric" where
  "metric_of Recency m = recency m"
| "metric_of Frequency m = frequency m"
| "metric_of Monetary m = monetary m"

text \<open>
  A value of a user's \<^verbatim>\<open>dimensions\<close> dict is an attribute string of the input row or a
  segment number written by \<^verbatim>\<open>segmentize\<close>.
\<close>

datatype dimval = Attr string | Seg nat

text \<open>
  Dicts are association lists with distinct keys in insertion order (the iteration
  order of a Python 3.7 dict): \<^const>\<open>AList.update\<close> is \<^verbatim>\<open>d[k] = v\<close>,
  \<^const>\<open>AList.delete\<close> is \<^verbatim>\<open>del d[k]\<close>, \<^const>\<open>AList.map_entry\<close> changes the value
  stored under a key, \<^const>\<open>map_of\<close> reads. A user is the dict built in
  \<^verbatim>\<open>load_input\<close>; its key \<^verbatim>\<open>'metrics'\<close> is absent until \<^verbatim>\<open>metricize\<close> has run.
\<close>

record user =
  orders :: "(date \<times> rat option) list"
  user_max_date :: date
  dimensions :: "(string \<times> dimval) list"
  metrics :: "metrics option"

record conf =
  look_back_period :: int
  prediction_period :: int
  segments_count :: "dimension \<Rightarrow> int option"

record rfmizer =
  conf :: conf
  max_date :: date
  look_back_delta :: int
  prediction_delta :: int
  borders :: "dimension \<Rightarrow> (nat \<times> rat) list option"
  users :: "(string \<times> user) list"
  ratios :: "((string \<times> dimval) list \<times> rat) list"

text \<open>
  What does not belong to the state: the version of Python, the order in which
  the set \<^verbatim>\<open>RFM_DIMENSIONS\<close> is iterated, which Python leaves open, and the rounding
  of a float operation.

  A method that raises has changed the engine up to the line that raises. The
  methods that can raise return \<open>Inl (e, s')\<close> for the exception \<open>e\<close> raised with the
  engine left as \<open>s'\<close>, and \<open>Inr s'\<close> when they return; \<open>state_of\<close> is the engine
  after the call in both cases.
\<close>

record py =
  version :: pyver
  rfm_dimensions :: "dimension list"
  fl_round :: "rat \<Rightarrow> rat"

fun state_of :: "(py_error \<times> rfmizer) + rfmizer \<Rightarrow> rfmizer" where
  "state_of (Inl (e, s)) = s"
| "state_of (Inr s) = s"

definition init :: "conf \<Rightarrow> rfmizer" where
  "init c = \<lparr> conf = c, max_date = date_2000_01_01,
     look_back_delta = look_back_period c, prediction_delta = prediction_period c,
     borders = Map.empty, users = [], ratios = [] \<rparr>"

section \<open>load_input\<close>

text \<open>
  A row of the input file after the split into columns (lines 118 to 124): the three
  order columns as strings and the remaining columns as the row's \<^verbatim>\<open>dimensions\<close> dict.
  The two parsers are parameters of the model: \<open>parse_date\<close> and \<open>parse_value\<close> stand
  for the functions of the same name and return \<open>None\<close> where they return \<^verbatim>\<open>None\<close>.
\<close>

record row =
  user_id :: string
  order_date :: string
  order_value :: string
  row_dimensions :: "(string \<times> dimval) list"

text \<open>
  Lines 134 to 143, all of which act on \<^verbatim>\<open>self.users[user_id]\<close>. The test
  \<^verbatim>\<open>if order_value:\<close> is Python truthiness: it fails for \<^verbatim>\<open>None\<close> and for \<^verbatim>\<open>0.0\<close>.
\<close>

definition load_order :: "date \<Rightarrow> rat option \<Rightarrow> (string \<times> dimval) list \<Rightarrow> user \<Rightarrow> user" where
  "load_order od ov dims u =
     (let u1 = (if map_of (orders u) od = None
                then u\<lparr>orders := AList.update od None (orders u)\<rparr> else u);
          u2 = (case ov of
                  None \<Rightarrow> u1
                | Some x \<Rightarrow>
                    if x = 0 then u1
                    else (case map_of (orders u1) od of
                            Some (Some y) \<Rightarrow> u1\<lparr>orders := AList.update od (Some (y + x)) (orders u1)\<rparr>
                          | _ \<Rightarrow> u1\<lparr>orders := AList.update od (Some x) (orders u1)\<rparr>))
      in if od > user_max_date u2
         then u2\<lparr>user_max_date := od, dimensions := dims\<rparr> else u2)"

definition load_row ::
  "(string \<Rightarrow> date option) \<Rightarrow> (string \<Rightarrow> rat option) \<Rightarrow> row \<Rightarrow> rfmizer \<Rightarrow> rfmizer" where
  "load_row parse_date parse_value r s =
     (case parse_date (order_date r) of
        None \<Rightarrow> s
      | Some od \<Rightarrow>
          (let ov = parse_value (order_value r);
               uid = user_id r;
               us = (if map_of (users s) uid = None
                     then AList.update uid
                            \<lparr>orders = [], user_max_date = od,
                             dimensions = row_dimensions r, metrics = None\<rparr> (users s)
                     else users s);
               us' = AList.map_entry uid (load_order od ov (row_dimensions r)) us
           in s\<lparr>users := us', max_date := (if od > max_date s then od else max_date s)\<rparr>))"

definition load_input ::
  "(string \<Rightarrow> date option) \<Rightarrow> (string \<Rightarrow> rat option) \<Rightarrow> row list \<Rightarrow> rfmizer \<Rightarrow> rfmizer" where
  "load_input parse_date parse_value rows s =
     fold (load_row parse_date parse_value) rows (s\<lparr>users := []\<rparr>)"

section \<open>metricize\<close>

text \<open>
  The inner loop over \<^verbatim>\<open>user['orders']\<close> (lines 163 to 169) carries the list
  \<^verbatim>\<open>orders\<close>, \<^verbatim>\<open>max_date\<close> and \<^verbatim>\<open>min_date\<close>.
\<close>

definition scan_order ::
  "date \<Rightarrow> date \<Rightarrow> date \<times> rat option \<Rightarrow> rat option list \<times> date \<times> date
     \<Rightarrow> rat option list \<times> date \<times> date" where
  "scan_order start today dv acc =
     (case acc of (os, max_d, min_d) \<Rightarrow>
        (let d = fst dv;
             os' = (if start \<le> d \<and> d \<le> today then os @ [snd dv] else os);
             max_d' = (if start \<le> d \<and> d \<le> today \<and> d > max_d then d else max_d);
             min_d' = (if d < min_d then d else min_d)
         in (os', max_d', min_d')))"

datatype outcome = Future | Computed metrics

definition user_metrics :: "date \<Rightarrow> date \<Rightarrow> user \<Rightarrow> outcome" where
  "user_metrics start today u =
     (case fold (scan_order start today) (orders u) ([], date_2000_01_01, date_2200_01_01) of
        (os, max_d, min_d) \<Rightarrow>
          (let orders_count = length os in
           if orders_count = 0 then
             (if min_d > today then Future
              else Computed \<lparr>recency = Stale, frequency = Stale, monetary = Stale\<rparr>)
           else
             (let non_zero_orders = [x. Some x \<leftarrow> os];
                  non_zero_orders_count = length non_zero_orders;
                  non_zero_orders_sum = sum_list non_zero_orders;
                  average_order =
                    (if non_zero_orders_count > 0
                     then Num (non_zero_orders_sum / of_nat non_zero_orders_count)
                     else Null);
                  days_passed = max_d - today
              in Computed \<lparr>recency = Num (of_int days_passed),
                           frequency = Num (of_nat orders_count),
                           monetary = average_order\<rparr>)))"

text \<open>
  The loop over the users sets \<^verbatim>\<open>user['metrics']\<close> or appends the uid to
  \<^verbatim>\<open>future_uids\<close>; the second loop deletes the future users.
\<close>

definition metricize_user :: "date \<Rightarrow> date \<Rightarrow> user \<Rightarrow> user" where
  "metricize_user start today u =
     (case user_metrics start today u of
        Future \<Rightarrow> u
      | Computed m \<Rightarrow> u\<lparr>metrics := Some m\<rparr>)"

definition metricize :: "date \<Rightarrow> rfmizer \<Rightarrow> rfmizer" where
  "metricize today s =
     (let start = today - look_back_delta s;
          future_uids = [fst p. p \<leftarrow> users s, user_metrics start today (snd p) = Future];
          us = map (\<lambda>p. (fst p, metricize_user start today (snd p))) (users s)
      in s\<lparr>users := fold AList.delete future_uids us\<rparr>)"

section \<open>segmentize\<close>

definition set_dim :: "dimension \<Rightarrow> nat \<Rightarrow> user \<Rightarrow> user" where
  "set_dim d k u = u\<lparr>dimensions := AList.update (dim_name d) (Seg k) (dimensions u)\<rparr>"

text \<open>
  The first loop (lines 204 to 211): a user without the key \<^verbatim>\<open>'metrics'\<close> raises
  KeyError, a metric \<^verbatim>\<open>None\<close> gives segment 1, \<^verbatim>\<open>'stale'\<close> gives segment 0, every other
  user is appended to \<^verbatim>\<open>uids\<close>. The model keeps each uid of that list together with
  the number it is sorted by, \<^verbatim>\<open>self.users[uid]['metrics'][dimension]\<close>. When the loop
  raises, the users before the one that raises have their segment and the others are
  as they were.
\<close>

fun collect ::
  "dimension \<Rightarrow> (string \<times> user) list \<Rightarrow>
     (py_error \<times> (string \<times> user) list) + ((string \<times> user) list \<times> (string \<times> rat) list)" where
  "collect d [] = Inr ([], [])"
| "collect d (p # ps) =
     (case metrics (snd p) of
        None \<Rightarrow> Inl (KeyError, p # ps)
      | Some m \<Rightarrow>
          (case collect d ps of
             Inl (e, us) \<Rightarrow>
               (case metric_of d m of
                  Null \<Rightarrow> Inl (e, (fst p, set_dim d 1 (snd p)) # us)
                | Stale \<Rightarrow> Inl (e, (fst p, set_dim d 0 (snd p)) # us)
                | Num x \<Rightarrow> Inl (e, p # us))
           | Inr (us, uids) \<Rightarrow>
               (case metric_of d m of
                  Null \<Rightarrow> Inr ((fst p, set_dim d 1 (snd p)) # us, uids)
                | Stale \<Rightarrow> Inr ((fst p, set_dim d 0 (snd p)) # us, uids)
                | Num x \<Rightarrow> Inr (p # us, (fst p, x) # uids))))"

text \<open>
  The main loop (lines 218 to 231) when \<^verbatim>\<open>by_borders\<close> is true. \<open>n\<close> is
  \<^verbatim>\<open>segments_count\<close>, \<open>bs\<close> is \<^verbatim>\<open>self.borders[dimension]\<close>, whose missing key raises
  KeyError, \<open>seg\<close> is \<^verbatim>\<open>segment\<close> and \<open>us\<close> the users dict, which an exception
  leaves as it is at that point.
\<close>

fun frozen_loop ::
  "dimension \<Rightarrow> int \<Rightarrow> (nat \<times> rat) list \<Rightarrow> (string \<times> rat) list \<Rightarrow> nat
     \<Rightarrow> (string \<times> user) list \<Rightarrow> (py_error \<times> (string \<times> user) list) + (string \<times> user) list" where
  "frozen_loop d n bs [] seg us = Inr us"
| "frozen_loop d n bs (p # ps) seg us =
     (if int seg < n then
        (case map_of bs seg of
           None \<Rightarrow> Inl (KeyError, us)
         | Some b \<Rightarrow>
             (let seg' = (if snd p \<ge> b then seg + 1 else seg)
              in frozen_loop d n bs ps seg' (AList.map_entry (fst p) (set_dim d seg') us)))
      else frozen_loop d n bs ps seg (AList.map_entry (fst p) (set_dim d seg) us))"

text \<open>
  The main loop when \<^verbatim>\<open>by_borders\<close> is false. \<open>cnt\<close> is \<^verbatim>\<open>uids_count\<close>, \<open>i\<close> the
  loop index, \<open>max_i\<close> and \<open>prev\<close> are \<^verbatim>\<open>max_i\<close> and \<^verbatim>\<open>prev_metric\<close>. Line 229 divides
  by \<^verbatim>\<open>segments_count - segment + 1\<close> after \<^verbatim>\<open>segment\<close> was incremented; when it
  raises, line 227 has written the border and line 231 has not been reached.
\<close>

fun fresh_loop ::
  "pyver \<Rightarrow> dimension \<Rightarrow> int \<Rightarrow> int \<Rightarrow> nat \<Rightarrow> (string \<times> rat) list \<Rightarrow> nat \<Rightarrow> rat \<Rightarrow> rat
     \<Rightarrow> (nat \<times> rat) list \<Rightarrow> (string \<times> user) list
     \<Rightarrow> (py_error \<times> (nat \<times> rat) list \<times> (string \<times> user) list)
         + ((nat \<times> rat) list \<times> (string \<times> user) list)" where
  "fresh_loop v d cnt n i [] seg max_i prev bs us = Inr (bs, us)"
| "fresh_loop v d cnt n i (p # ps) seg max_i prev bs us =
     (if of_nat i \<ge> max_i \<and> snd p \<noteq> prev then
        (case py_div v (cnt - int i) (n - int (seg + 1) + 1) of
           Inl e \<Rightarrow> Inl (e, AList.update seg (snd p) bs, us)
         | Inr q \<Rightarrow>
             fresh_loop v d cnt n (i + 1) ps (seg + 1) (of_nat i + q) (snd p)
               (AList.update seg (snd p) bs)
               (AList.map_entry (fst p) (set_dim d (seg + 1)) us))
      else
        fresh_loop v d cnt n (i + 1) ps seg max_i (snd p) bs
          (AList.map_entry (fst p) (set_dim d seg) us))"

text \<open>
  The two paths through \<^verbatim>\<open>segmentize\<close>, one for each value of \<^verbatim>\<open>by_borders\<close>. With
  recorded borders \<^verbatim>\<open>segments_count\<close> is their number plus one. Without, line 201
  records an empty dict, line 202 reads the configuration (KeyError when the
  dimension has no entry), line 216 divides (ZeroDivisionError) and line 217 reads
  \<^verbatim>\<open>uids[0]\<close> (IndexError on an empty list); each of these exceptions leaves the
  empty dict of line 201 in \<^verbatim>\<open>self.borders\<close>. \<^const>\<open>sort_key\<close> is stable, as
  \<^verbatim>\<open>list.sort\<close> is.
\<close>

definition segmentize_by_borders ::
  "dimension \<Rightarrow> (nat \<times> rat) list \<Rightarrow> rfmizer \<Rightarrow> (py_error \<times> rfmizer) + rfmizer" where
  "segmentize_by_borders d bs s =
     (let segments_count = int (length bs) + 1 in
      case collect d (users s) of
        Inl (e, us) \<Rightarrow> Inl (e, s\<lparr>users := us\<rparr>)
      | Inr (us, uids) \<Rightarrow>
          (case frozen_loop d segments_count bs (sort_key snd uids) 1 us of
             Inl (e, us') \<Rightarrow> Inl (e, s\<lparr>users := us'\<rparr>)
           | Inr us' \<Rightarrow> Inr (s\<lparr>users := us'\<rparr>)))"

definition segmentize_fresh ::
  "pyver \<Rightarrow> dimension \<Rightarrow> rfmizer \<Rightarrow> (py_error \<times> rfmizer) + rfmizer" where
  "segmentize_fresh v d s =
     (let s0 = s\<lparr>borders := (borders s)(d \<mapsto> [])\<rparr> in
      case segments_count (conf s) d of
        None \<Rightarrow> Inl (KeyError, s0)
      | Some n \<Rightarrow>
          (case collect d (users s) of
             Inl (e, us) \<Rightarrow> Inl (e, s0\<lparr>users := us\<rparr>)
           | Inr (us, uids) \<Rightarrow>
               (let sorted_uids = sort_key snd uids;
                    uids_count = int (length sorted_uids) in
                case py_div v uids_count n of
                  Inl e \<Rightarrow> Inl (e, s0\<lparr>users := us\<rparr>)
                | Inr max_i \<Rightarrow>
                    (case sorted_uids of
                       [] \<Rightarrow> Inl (IndexError, s0\<lparr>users := us\<rparr>)
                     | p # _ \<Rightarrow>
                         (case fresh_loop v d uids_count n 0 sorted_uids 1 max_i (snd p) [] us of
                            Inl (e, bs, us') \<Rightarrow>
                              Inl (e, s\<lparr>borders := (borders s)(d \<mapsto> bs), users := us'\<rparr>)
                          | Inr (bs, us') \<Rightarrow>
                              Inr (s\<lparr>borders := (borders s)(d \<mapsto> bs), users := us'\<rparr>))))))"

definition segmentize ::
  "pyver \<Rightarrow> dimension \<Rightarrow> rfmizer \<Rightarrow> (py_error \<times> rfmizer) + rfmizer" where
  "segmentize v d s =
     (case borders s d of
        Some bs \<Rightarrow> segmentize_by_borders d bs s
      | None \<Rightarrow> segmentize_fresh v d s)"

section \<open>rfmize\<close>

fun segmentize_all ::
  "pyver \<Rightarrow> dimension list \<Rightarrow> rfmizer \<Rightarrow> (py_error \<times> rfmizer) + rfmizer" where
  "segmentize_all v [] s = Inr s"
| "segmentize_all v (d # ds) s =
     (case segmentize v d s of
        Inl e \<Rightarrow> Inl e
      | Inr s' \<Rightarrow> segmentize_all v ds s')"

text \<open>\<open>None\<close> is the default argument; a \<^verbatim>\<open>datetime\<close> is never false.\<close>

definition rfmize :: "py \<Rightarrow> date option \<Rightarrow> rfmizer \<Rightarrow> (py_error \<times> rfmizer) + rfmizer" where
  "rfmize e today s =
     (let today' = (case today of None \<Rightarrow> max_date s | Some t \<Rightarrow> t)
      in segmentize_all (version e) (rfm_dimensions e) (metricize today' s))"

section \<open>rationize\<close>

text \<open>
  \<^verbatim>\<open>tuple(sorted(user['dimensions'].items()))\<close>: the keys of a dict are distinct, so
  the items are sorted by key (strings, compared lexicographically).
\<close>

definition micro_segment :: "user \<Rightarrow> (string \<times> dimval) list" where
  "micro_segment u = sort_key fst (dimensions u)"

text \<open>
  Lines 283 and 284. The filter \<^verbatim>\<open>if user['orders'][d] and d > prediction_date\<close> leaves
  out \<^verbatim>\<open>None\<close> and \<^verbatim>\<open>0.0\<close>.
\<close>

definition orders_value :: "(rat \<Rightarrow> rat) \<Rightarrow> date \<Rightarrow> user \<Rightarrow> rat" where
  "orders_value rnd prediction_date u =
     fl_sum rnd [x. (d, Some x) \<leftarrow> orders u, x \<noteq> 0 \<and> d > prediction_date]"

text \<open>
  One pass of the loop of lines 280 to 292 on \<^verbatim>\<open>segments\<close> (for each micro-segment
  \<^verbatim>\<open>users_count\<close> and \<^verbatim>\<open>orders_value\<close>) and \<^verbatim>\<open>total_orders_value\<close>.
\<close>

definition rationize_step ::
  "(rat \<Rightarrow> rat) \<Rightarrow> date \<Rightarrow> string \<times> user
     \<Rightarrow> ((string \<times> dimval) list \<times> nat \<times> rat) list \<times> rat
     \<Rightarrow> ((string \<times> dimval) list \<times> nat \<times> rat) list \<times> rat" where
  "rationize_step rnd prediction_date p acc =
     (case acc of (segments, total_orders_value) \<Rightarrow>
        (let segment = micro_segment (snd p);
             ov = orders_value rnd prediction_date (snd p)
         in (case map_of segments segment of
               None \<Rightarrow> AList.update segment (1, ov) segments
             | Some (c, w) \<Rightarrow> AList.update segment (c + 1, fl_add rnd w ov) segments,
             fl_add rnd total_orders_value ov)))"

text \<open>
  The loop of lines 295 to 299 on \<^verbatim>\<open>self.ratios\<close>, which line 294 has emptied; when a
  division raises, the ratios of the micro-segments before it are there.
\<close>

fun ratio_loop ::
  "(rat \<Rightarrow> rat) \<Rightarrow> rat \<Rightarrow> ((string \<times> dimval) list \<times> nat \<times> rat) list
     \<Rightarrow> (py_error \<times> ((string \<times> dimval) list \<times> rat) list)
         + ((string \<times> dimval) list \<times> rat) list" where
  "ratio_loop rnd avg [] = Inr []"
| "ratio_loop rnd avg (g # gs) =
     (case fl_div rnd (snd (snd g)) (of_nat (fst (snd g))) of
        Inl e \<Rightarrow> Inl (e, [])
      | Inr q \<Rightarrow>
          (case fl_div rnd q avg of
             Inl e \<Rightarrow> Inl (e, [])
           | Inr r \<Rightarrow>
               (case ratio_loop rnd avg gs of
                  Inl (e, rs) \<Rightarrow> Inl (e, (fst g, r) # rs)
                | Inr rs \<Rightarrow> Inr ((fst g, r) # rs))))"

definition rationize :: "py \<Rightarrow> rfmizer \<Rightarrow> (py_error \<times> rfmizer) + rfmizer" where
  "rationize e s =
     (let prediction_date = max_date s - prediction_delta s in
      case rfmize e (Some prediction_date) s of
        Inl err \<Rightarrow> Inl err
      | Inr s1 \<Rightarrow>
          (case fold (rationize_step (fl_round e) prediction_date) (users s1) ([], 0) of
             (segments, total_orders_value) \<Rightarrow>
               (case fl_div (fl_round e) total_orders_value (of_nat (length (users s1))) of
                  Inl err \<Rightarrow> Inl (err, s1)
                | Inr total_average_orders_value \<Rightarrow>
                    (case ratio_loop (fl_round e) total_average_orders_value segments of
                       Inl (err, rs) \<Rightarrow> Inl (err, s1\<lparr>ratios := rs\<rparr>)
                     | Inr rs \<Rightarrow> Inr (s1\<lparr>ratios := rs\<rparr>)))))"

section \<open>The output files and save_output\<close>

text \<open>
  The three files are modelled by their data rows; the header rows, the file names
  and the column aliases of the configuration are left out.
  \<^verbatim>\<open>next(iter(self.users.values()))\<close> raises StopIteration when there is no user.
  \<^verbatim>\<open>sorted(self.borders)\<close> sorts the names of the dimensions:
  \<^verbatim>\<open>'frequency' < 'monetary' < 'recency'\<close>. When \<^verbatim>\<open>save_output\<close> raises, the value
  holds the engine and not the files written before the exception.
\<close>

definition save_mapping :: "rfmizer \<Rightarrow> py_error + (string \<times> dimval list) list" where
  "save_mapping s =
     (case users s of
        [] \<Rightarrow> Inl StopIteration
      | _ \<Rightarrow> Inr (map (\<lambda>p. (fst p, map snd (micro_segment (snd p)))) (users s)))"

definition save_borders :: "rfmizer \<Rightarrow> (dimension \<times> nat \<times> rat) list" where
  "save_borders s =
     concat (map (\<lambda>d. case borders s d of
                         None \<Rightarrow> []
                       | Some bs \<Rightarrow> map (\<lambda>jb. (d, fst jb, snd jb)) (sort_key fst bs))
                 [Frequency, Monetary, Recency])"

definition save_ratios :: "rfmizer \<Rightarrow> py_error + (dimval list \<times> rat) list" where
  "save_ratios s =
     (case users s of
        [] \<Rightarrow> Inl StopIteration
      | _ \<Rightarrow> Inr (map (\<lambda>g. (map snd (fst g), snd g)) (ratios s)))"

definition save_output ::
  "py \<Rightarrow> rfmizer \<Rightarrow>
     (py_error \<times> rfmizer)
       + (rfmizer \<times> (string \<times> dimval list) list \<times> (dimension \<times> nat \<times> rat) list
            \<times> (dimval list \<times> rat) list)" where
  "save_output e s =
     (case rfmize e None s of
        Inl err \<Rightarrow> Inl err
      | Inr s1 \<Rightarrow>
          (case save_mapping s1 of
             Inl err \<Rightarrow> Inl (err, s1)
           | Inr mapping \<Rightarrow>
               (case rationize e s1 of
                  Inl err \<Rightarrow> Inl err
                | Inr s2 \<Rightarrow>
                    (case save_ratios s2 of
                       Inl err \<Rightarrow> Inl (err, s2)
                     | Inr rs \<Rightarrow> Inr (s2, mapping, save_borders s1, rs)))))"

section \<open>Example inputs\<close>

text \<open>
  A configuration with two segments per dimension, a look-back period of 365 days and
  a prediction period of 30 days; the dates and values that the parsers of the script
  give on the strings used below (2000-03-31, 2000-04-10 and 2000-07-19 are days 90,
  100 and 200 after 2000-01-01, and 1999-12-01 is 31 days before it). The values of
  the examples are small integers, whose float sums are exact, and no statement
  below reads a ratio: \<open>ex_py\<close> rounds nothing.
\<close>

definition ex_conf :: conf where
  "ex_conf = \<lparr>look_back_period = 365, prediction_period = 30,
              segments_count = (\<lambda>d. Some 2)\<rparr>"

definition ex_py :: py where
  "ex_py = \<lparr>version = Py3, rfm_dimensions = [Recency, Frequency, Monetary],
            fl_round = (\<lambda>x. x)\<rparr>"

definition ex_parse_date :: "string \<Rightarrow> date option" where
  "ex_parse_date =
     map_of [(''1999-12-01'', - 31), (''2000-03-31'', 90), (''2000-04-10'', 100),
             (''2000-07-19'', 200)]"

definition ex_parse_value :: "string \<Rightarrow> rat option" where
  "ex_parse_value = map_of [(''0'', 0), (''5'', 5), (''10'', 10), (''20'', 20), (''50'', 50)]"

text \<open>One customer whose only order is dated 1999-12-01.\<close>

definition ex_rows_1999 :: "row list" where
  "ex_rows_1999 =
     [\<lparr>user_id = ''A'', order_date = ''1999-12-01'', order_value = ''10'',
       row_dimensions = []\<rparr>]"





text \<open>Two customers who both order on 2000-07-19 only, the maximal date.\<close>

definition ex_rows_one_day :: "row list" where
  "ex_rows_one_day =
     [\<lparr>user_id = ''A'', order_date = ''2000-07-19'', order_value = ''10'',
       row_dimensions = []\<rparr>,
      \<lparr>user_id = ''B'', order_date = ''2000-07-19'', order_value = ''20'',
       row_dimensions = []\<rparr>]"

definition ex_state_one_day :: rfmizer where
  "ex_state_one_day =
     projr (rfmize ex_py None
       (load_input ex_parse_date ex_parse_value ex_rows_one_day (init ex_conf)))"

text \<open>One customer with one order of value 0.\<close>

definition ex_rows_zero :: "row list" where
  "ex_rows_zero =
     [\<lparr>user_id = ''A'', order_date = ''2000-04-10'', order_value = ''0'',
       row_dimensions = []\<rparr>]"

text \<open>The scenario of the specification: two orders of one customer on one day, of 10 and 5.\<close>

definition ex_rows_same_day :: "row list" where
  "ex_rows_same_day =
     [\<lparr>user_id = ''A'', order_date = ''2000-04-10'', order_value = ''10'',
       row_dimensions = []\<rparr>,
      \<lparr>user_id = ''A'', order_date = ''2000-04-10'', order_value = ''5'',
       row_dimensions = []\<rparr>]"

text \<open>
  Customer A orders 10 on 2000-04-10 and 50 on 2000-07-19, customer B orders 20 on
  2000-03-31. \<open>ex_loaded\<close> is the engine after \<^verbatim>\<open>load_input\<close> and \<open>ex_primary\<close> the
  engine after the first \<^verbatim>\<open>rfmize\<close> of \<^verbatim>\<open>save_output\<close>.
\<close>

definition ex_rows :: "row list" where
  "ex_rows =
     [\<lparr>user_id = ''A'', order_date = ''2000-04-10'', order_value = ''10'', row_dimensions = []\<rparr>,
      \<lparr>user_id = ''A'', order_date = ''2000-07-19'', order_value = ''50'', row_dimensions = []\<rparr>,
      \<lparr>user_id = ''B'', order_date = ''2000-03-31'', order_value = ''20'', row_dimensions = []\<rparr>]"





definition ex_loaded :: rfmizer where
  "ex_loaded = load_input ex_parse_date ex_parse_value ex_rows (init ex_conf)"

definition ex_primary :: rfmizer where
  "ex_primary = projr (rfmize ex_py None ex_loaded)"

section \<open>Predicates used in the statements\<close>


text \<open>
  \<open>stored s uid d\<close> is \<^verbatim>\<open>self.users[uid]['orders'][d]\<close>: \<open>None\<close> when the user or the
  date is missing, \<open>Some None\<close> for a date stored with \<^verbatim>\<open>None\<close>. \<open>row_values\<close> are
  the results of \<^verbatim>\<open>parse_value\<close> on the rows of a user that carry a parsed date, in the
  order of the rows, and \<open>parsed\<close> keeps the numbers among them. \<open>add_value\<close> is the
  effect of lines 136 to 140 on the stored value.
\<close>

definition stored :: "rfmizer \<Rightarrow> string \<Rightarrow> date \<Rightarrow> rat option option" where
  "stored s uid d = (case map_of (users s) uid of None \<Rightarrow> None | Some u \<Rightarrow> map_of (orders u) d)"

definition row_values ::
  "(string \<Rightarrow> date option) \<Rightarrow> (string \<Rightarrow> rat option) \<Rightarrow> string \<Rightarrow> date \<Rightarrow> row list \<Rightarrow> rat option list" where
  "row_values pd pv uid d rows =
     map (\<lambda>r. pv (order_value r)) (filter (\<lambda>r. user_id r = uid \<and> pd (order_date r) = Some d) rows)"

definition parsed :: "rat option list \<Rightarrow> rat list" where
  "parsed vs = concat (map (\<lambda>v. case v of None \<Rightarrow> [] | Some x \<Rightarrow> [x]) vs)"

definition add_value :: "rat option \<Rightarrow> rat option \<Rightarrow> rat option" where
  "add_value st v =
     (case v of None \<Rightarrow> st
      | Some x \<Rightarrow> if x = 0 then st else (case st of None \<Rightarrow> Some x | Some y \<Rightarrow> Some (y + x)))"

text \<open>
  \<open>later s s'\<close>: the engine state \<open>s'\<close> is reached from \<open>s\<close> by calls of the methods
  of the class, each of which returns or raises an exception that the caller catches.
\<close>

inductive later :: "rfmizer \<Rightarrow> rfmizer \<Rightarrow> bool" where
  later_refl: "later s s"
| later_load_input: "later s s1 \<Longrightarrow> later s (load_input pd pv rows s1)"
| later_metricize: "later s s1 \<Longrightarrow> later s (metricize today s1)"
| later_segmentize: "later s s1 \<Longrightarrow> later s (state_of (segmentize v d s1))"
| later_rfmize: "later s s1 \<Longrightarrow> later s (state_of (rfmize e today' s1))"
| later_rationize: "later s s1 \<Longrightarrow> later s (state_of (rationize e s1))"

text \<open>
  The calls of \<^verbatim>\<open>segmentize\<close> of one \<^verbatim>\<open>rfmize\<close>, each taken along the path with
  \<^verbatim>\<open>by_borders\<close> true and with the borders that the table \<open>B\<close> holds for its dimension.
\<close>

fun frozen_all ::
  "(dimension \<Rightarrow> (nat \<times> rat) list option) \<Rightarrow> dimension list \<Rightarrow> rfmizer
     \<Rightarrow> (py_error \<times> rfmizer) + rfmizer" where
  "frozen_all B [] s = Inr s"
| "frozen_all B (d # ds) s =
     (case segmentize_by_borders d (the (B d)) s of
        Inl e \<Rightarrow> Inl e
      | Inr s' \<Rightarrow> frozen_all B ds s')"

text \<open>
  The metric of a user as the second loop of \<^verbatim>\<open>segmentize\<close> reads it, for the users
  that the first loop appends to \<^verbatim>\<open>uids\<close> (the ranked users: the metric is a number),
  and the segment number that \<^verbatim>\<open>user['dimensions'][dimension]\<close> holds.
  \<open>first_pass\<close> is the effect of the first loop (lines 204 to 211) on one user and
  \<open>ranked\<close> the list \<^verbatim>\<open>uids\<close> it builds, each uid with its metric.
\<close>

definition metric_num :: "dimension \<Rightarrow> user \<Rightarrow> rat option" where
  "metric_num d u =
     (case metrics u of
        None \<Rightarrow> None
      | Some m \<Rightarrow> (case metric_of d m of Num x \<Rightarrow> Some x | _ \<Rightarrow> None))"

definition segment_of :: "dimension \<Rightarrow> user \<Rightarrow> nat option" where
  "segment_of d u =
     (case map_of (dimensions u) (dim_name d) of Some (Seg k) \<Rightarrow> Some k | _ \<Rightarrow> None)"

definition first_pass :: "dimension \<Rightarrow> user \<Rightarrow> user" where
  "first_pass d u =
     (case metrics u of
        None \<Rightarrow> u
      | Some m \<Rightarrow>
          (case metric_of d m of
             Null \<Rightarrow> set_dim d 1 u
           | Stale \<Rightarrow> set_dim d 0 u
           | Num x \<Rightarrow> u))"




section \<open>The maximal date of load_input\<close>

lemma max_date_load_row:
  "max_date (load_row pd pv r s) =
     (case pd (order_date r) of None \<Rightarrow> max_date s | Some d \<Rightarrow> max d (max_date s))"
  by (simp add: load_row_def Let_def split: option.splits)

lemma max_date_fold_load_row:
  "max_date (fold (load_row pd pv) rows s) =
     Max (insert (max_date s) {d. \<exists>r \<in> set rows. pd (order_date r) = Some d})"
proof (induction rows arbitrary: s)
  case Nil
  then show ?case by simp
next
  case (Cons r rows)
  have fin: "finite {d. \<exists>r \<in> set rows. pd (order_date r) = Some d}"
    by (rule finite_subset[where B="(\<lambda>r. the (pd (order_date r))) ` set rows"]) force+
  show ?case
  proof (cases "pd (order_date r)")
    case None
    then have "{d. \<exists>r' \<in> set (r # rows). pd (order_date r') = Some d}
        = {d. \<exists>r \<in> set rows. pd (order_date r) = Some d}" by auto
    with None Cons show ?thesis by (simp add: max_date_load_row)
  next
    case (Some d)
    then have eq: "{d. \<exists>r' \<in> set (r # rows). pd (order_date r') = Some d}
        = insert d {d. \<exists>r \<in> set rows. pd (order_date r) = Some d}" by auto
    have "Max (insert (max d (max_date s)) {d. \<exists>r \<in> set rows. pd (order_date r) = Some d})
       = Max (insert (max_date s) (insert d {d. \<exists>r \<in> set rows. pd (order_date r) = Some d}))"
      using fin
      by (cases "{d. \<exists>r \<in> set rows. pd (order_date r) = Some d} = {}")
         (auto simp: max.assoc max.commute max.left_commute)
    with Some Cons eq show ?thesis by (simp add: max_date_load_row)
  qed
qed

text \<open>
  What \<^verbatim>\<open>load_input\<close> leaves in \<^verbatim>\<open>self.max_date\<close> on an engine made by \<^verbatim>\<open>__init__\<close>: the
  largest of 2000-01-01 and the parsed dates.
\<close>

lemma max_date_load_input:
  "max_date (load_input pd pv rows (init c)) =
     Max (insert date_2000_01_01 {d. \<exists>r \<in> set rows. pd (order_date r) = Some d})"
  by (simp add: load_input_def max_date_fold_load_row init_def)

text \<open>
  C8. The claim is that after aggregation \<^verbatim>\<open>max_date\<close> is the largest parsed order date
  of the input, also when every date precedes 2000-01-01. On the input whose only
  row is dated 1999-12-01 (day \<open>-31\<close>) the engine's \<^verbatim>\<open>max_date\<close> is 2000-01-01 (day 0),
  the value line 101 starts from, and not the date of the row.
\<close>

theorem load_input_max_date_before_2000:
  "ex_parse_date (order_date (hd ex_rows_1999)) = Some (- 31) \<and>
   max_date (load_input ex_parse_date ex_parse_value ex_rows_1999 (init ex_conf)) = 0 \<and>
   date_2000_01_01 = 0"
  by (simp add: ex_rows_1999_def ex_parse_date_def load_input_def load_row_def init_def
      date_2000_01_01_def)

section \<open>The stored value of a date\<close>

lemma orders_load_order:
  "map_of (orders (load_order od ov dims u)) d =
     (if d = od then Some (add_value (case map_of (orders u) od of None \<Rightarrow> None | Some st \<Rightarrow> st) ov)
      else map_of (orders u) d)"
  by (auto simp: load_order_def Let_def add_value_def update_conv' split: option.splits)

lemma stored_load_row:
  "stored (load_row pd pv r s) uid d =
     (if user_id r = uid \<and> pd (order_date r) = Some d
      then Some (add_value (case stored s uid d of None \<Rightarrow> None | Some st \<Rightarrow> st) (pv (order_value r)))
      else stored s uid d)"
  by (auto simp: stored_def load_row_def Let_def map_of_map_entry update_conv' orders_load_order add_value_def
      split: option.splits)

lemma stored_fold_load_row:
  "stored (fold (load_row pd pv) rows s) uid d =
     fold (\<lambda>v st. Some (add_value (case st of None \<Rightarrow> None | Some x \<Rightarrow> x) v))
       (row_values pd pv uid d rows) (stored s uid d)"
  by (induction rows arbitrary: s) (auto simp: row_values_def stored_load_row)

lemma fold_add_Some:
  "fold (\<lambda>v st. Some (add_value (case st of None \<Rightarrow> None | Some x \<Rightarrow> x) v)) vs (Some (Some y))
     = Some (Some (y + sum_list (parsed vs)))"
  by (induction vs arbitrary: y) (auto simp: add_value_def parsed_def split: option.splits)

lemma fold_add_None:
  "fold (\<lambda>v st. Some (add_value (case st of None \<Rightarrow> None | Some x \<Rightarrow> x) v)) vs (Some None)
     = Some (if \<forall>x \<in> set (parsed vs). x = 0 then None else Some (sum_list (parsed vs)))"
proof (induction vs)
  case Nil
  then show ?case by (simp add: parsed_def)
next
  case (Cons v vs)
  show ?case
  proof (cases "add_value None v")
    case None
    then have "parsed (v # vs) = parsed vs \<or> (\<exists>x. x = 0 \<and> parsed (v # vs) = x # parsed vs)"
      by (auto simp: add_value_def parsed_def split: option.splits if_splits)
    with None Cons show ?thesis by auto
  next
    case (Some y)
    then have "parsed (v # vs) = y # parsed vs" "y \<noteq> 0"
      by (auto simp: add_value_def parsed_def split: option.splits if_splits)
    with Some show ?thesis by (simp add: fold_add_Some)
  qed
qed

lemma fold_add_start:
  "fold (\<lambda>v st. Some (add_value (case st of None \<Rightarrow> None | Some x \<Rightarrow> x) v)) vs None
     = (if vs = [] then None
        else Some (if \<forall>x \<in> set (parsed vs). x = 0 then None else Some (sum_list (parsed vs))))"
proof (cases vs)
  case Nil
  then show ?thesis by simp
next
  case (Cons v vs')
  show ?thesis
  proof (cases "add_value None v")
    case None
    then have "parsed (v # vs') = parsed vs' \<or> (\<exists>x. x = 0 \<and> parsed (v # vs') = x # parsed vs')"
      by (auto simp: add_value_def parsed_def split: option.splits if_splits)
    with None Cons show ?thesis by (auto simp: fold_add_None)
  next
    case (Some y)
    then have "parsed (v # vs') = y # parsed vs'" "y \<noteq> 0"
      by (auto simp: add_value_def parsed_def split: option.splits if_splits)
    with Some Cons show ?thesis by (simp add: fold_add_Some)
  qed
qed

text \<open>
  C6. The claim is that every parsed value is added to the stored value of its date
  and that \<^verbatim>\<open>None\<close> plus a parsed number is that number. A parsed value of 0 is not
  added: line 136 tests \<^verbatim>\<open>if order_value:\<close>, which is false for \<^verbatim>\<open>0.0\<close>, so the only
  order of the customer below, of value 0, is stored as \<^verbatim>\<open>None\<close>.
\<close>

theorem load_input_zero_value_stays_null:
  "ex_parse_value (order_value (hd ex_rows_zero)) = Some 0 \<and>
   stored (load_input ex_parse_date ex_parse_value ex_rows_zero (init ex_conf)) ''A'' 100 = Some None"
  by code_simp

text \<open>
  C6 as amended: after \<^verbatim>\<open>load_input\<close> a date of a customer is stored exactly when a
  row of the customer carries it; its value is the sum of the parsed values of these
  rows when one of them is not 0, and \<^verbatim>\<open>None\<close> when none is (no value parses, or all
  are 0).
\<close>

theorem load_input_sums_values:
  "stored (load_input pd pv rows s) uid d =
     (if row_values pd pv uid d rows = [] then None
      else Some (if \<forall>x \<in> set (parsed (row_values pd pv uid d rows)). x = 0 then None
                 else Some (sum_list (parsed (row_values pd pv uid d rows)))))"
proof -
  have "stored (s\<lparr>users := []\<rparr>) uid d = None"
    by (simp add: stored_def)
  then have "stored (load_input pd pv rows s) uid d =
      fold (\<lambda>v st. Some (add_value (case st of None \<Rightarrow> None | Some x \<Rightarrow> x) v))
        (row_values pd pv uid d rows) None"
    by (simp only: load_input_def stored_fold_load_row)
  then show ?thesis by (simp only: fold_add_start)
qed

text \<open>The witness is the scenario of the specification: 10 and 5 on one day give 15.\<close>

theorem load_input_sums_values_witness:
  "parsed (row_values ex_parse_date ex_parse_value ''A'' 100 ex_rows_same_day) = [10, 5] \<and>
   stored (load_input ex_parse_date ex_parse_value ex_rows_same_day (init ex_conf)) ''A'' 100 = Some (Some 15)"
proof -
  have h: "parsed (row_values ex_parse_date ex_parse_value ''A'' 100 ex_rows_same_day) = [10, 5]"
    by code_simp
  have g: "row_values ex_parse_date ex_parse_value ''A'' 100 ex_rows_same_day \<noteq> []"
    by code_simp
  show ?thesis
    using load_input_sums_values[of ex_parse_date ex_parse_value ex_rows_same_day "init ex_conf" "''A''" 100] h g
    by simp
qed

section \<open>The recency of metricize\<close>

text \<open>
  C4. The claim gives the recency as the latest in-window order date minus today.
  For the customer whose only order is dated 1999-12-01 (day \<open>-31\<close>), \<^verbatim>\<open>load_input\<close>
  leaves \<^verbatim>\<open>max_date\<close> at 2000-01-01 (day 0), so the first \<^verbatim>\<open>rfmize\<close> of \<^verbatim>\<open>save_output\<close>
  calls \<^verbatim>\<open>metricize\<close> with that date. The order is in the window of 365 days, and the
  recency is 0 and not \<open>-31\<close>: line 161 starts the maximum from 2000-01-01 and line
  166 only raises it.
\<close>

theorem metricize_recency_before_2000:
  "map (orders \<circ> snd) (users (load_input ex_parse_date ex_parse_value ex_rows_1999 (init ex_conf)))
     = [[(- 31, Some 10)]] \<and>
   max_date (load_input ex_parse_date ex_parse_value ex_rows_1999 (init ex_conf)) = 0 \<and>
   map (metrics \<circ> snd)
     (users (metricize 0 (load_input ex_parse_date ex_parse_value ex_rows_1999 (init ex_conf))))
     = [Some \<lparr>recency = Num 0, frequency = Num 1, monetary = Num 10\<rparr>]"
  by code_simp

section \<open>segmentize without a rankable user\<close>

lemma metric_num_set_dim [simp]: "metric_num d (set_dim d' k u) = metric_num d u"
  by (simp add: metric_num_def set_dim_def)

lemma metric_num_first_pass [simp]: "metric_num d (first_pass d' u) = metric_num d u"
  by (simp add: first_pass_def metric_num_def set_dim_def split: option.splits metric.splits)

lemma segment_of_set_dim [simp]: "segment_of d (set_dim d k u) = Some k"
  by (simp add: segment_of_def set_dim_def update_conv')






section \<open>Recorded borders\<close>



lemma borders_metricize: "borders (metricize today s) = borders s"
  by (simp add: metricize_def Let_def)

lemma segmentize_by_borders_state:
  "borders (state_of (segmentize_by_borders d bs s)) = borders s"
  by (auto simp: segmentize_by_borders_def Let_def split: sum.splits prod.splits)

lemma segmentize_by_borders_rest:
  "segmentize_by_borders d bs s = Inr s' \<Longrightarrow> s' = s\<lparr>users := users s'\<rparr>"
  by (auto simp: segmentize_by_borders_def Let_def split: sum.splits prod.splits)

lemma segmentize_by_borders_borders:
  "segmentize_by_borders d bs s = Inr s' \<Longrightarrow> borders s' = borders s"
  using segmentize_by_borders_state[of d bs s] by simp

lemma segmentize_fresh_state:
  "\<exists>bs. borders (state_of (segmentize_fresh v d s)) = (borders s)(d \<mapsto> bs)"
  by (auto simp: segmentize_fresh_def Let_def split: sum.splits prod.splits option.splits list.splits)

lemma segmentize_records: "borders (state_of (segmentize v d s)) d \<noteq> None"
proof (cases "borders s d")
  case None
  then have "segmentize v d s = segmentize_fresh v d s" by (simp add: segmentize_def)
  with segmentize_fresh_state[of v d s] show ?thesis by auto
next
  case (Some bs)
  then have "segmentize v d s = segmentize_by_borders d bs s" by (simp add: segmentize_def)
  with segmentize_by_borders_state[of d bs s] Some show ?thesis by simp
qed

lemma segmentize_keeps:
  assumes b: "borders s d = Some bs"
  shows "borders (state_of (segmentize v d' s)) d = Some bs"
proof (cases "borders s d'")
  case None
  then have "segmentize v d' s = segmentize_fresh v d' s" by (simp add: segmentize_def)
  moreover obtain bs' where "borders (state_of (segmentize_fresh v d' s)) = (borders s)(d' \<mapsto> bs')"
    using segmentize_fresh_state by blast
  moreover from None b have "d \<noteq> d'" by auto
  ultimately show ?thesis using b by simp
next
  case (Some bs')
  then have "segmentize v d' s = segmentize_by_borders d' bs' s" by (simp add: segmentize_def)
  with segmentize_by_borders_state[of d' bs' s] b show ?thesis by simp
qed

lemma segmentize_all_keeps:
  "borders s d = Some bs \<Longrightarrow> borders (state_of (segmentize_all v ds s)) d = Some bs"
proof (induction ds arbitrary: s)
  case Nil
  then show ?case by simp
next
  case (Cons a ds)
  from segmentize_keeps[OF Cons.prems, of v a]
  have k: "borders (state_of (segmentize v a s)) d = Some bs" .
  show ?case
  proof (cases "segmentize v a s")
    case (Inl r)
    with k show ?thesis by simp
  next
    case (Inr s1)
    with k have "borders s1 d = Some bs" by simp
    from Cons.IH[OF this] Inr show ?thesis by simp
  qed
qed

lemma segmentize_all_records:
  "segmentize_all v ds s = Inr s' \<Longrightarrow> d \<in> set ds \<Longrightarrow> borders s' d \<noteq> None"
proof (induction ds arbitrary: s)
  case Nil
  then show ?case by simp
next
  case (Cons a ds)
  from Cons.prems(1) obtain s1 where a: "segmentize v a s = Inr s1" and r: "segmentize_all v ds s1 = Inr s'"
    by (auto split: sum.splits)
  show ?case
  proof (cases "d = a")
    case True
    with segmentize_records[of v a s] a obtain bs where "borders s1 d = Some bs" by auto
    with segmentize_all_keeps[of s1 d _ v ds] r show ?thesis by simp
  next
    case False
    with Cons.prems(2) have "d \<in> set ds" by simp
    from Cons.IH[OF r this] show ?thesis .
  qed
qed






section \<open>The second rfmize of save_output\<close>

lemma segmentize_all_frozen:
  "\<forall>d \<in> set ds. borders s d \<noteq> None \<Longrightarrow> segmentize_all v ds s = frozen_all (borders s) ds s"
proof (induction ds arbitrary: s)
  case Nil
  then show ?case by simp
next
  case (Cons d ds)
  then obtain bs where b: "borders s d = Some bs" by auto
  then have f: "segmentize v d s = segmentize_by_borders d bs s" by (simp add: segmentize_def)
  show ?case
  proof (cases "segmentize_by_borders d bs s")
    case (Inl e)
    with f b show ?thesis by simp
  next
    case (Inr s')
    from segmentize_by_borders_borders[OF Inr] have eq: "borders s' = borders s" .
    with Cons.prems have "\<forall>d \<in> set ds. borders s' d \<noteq> None" by simp
    from Cons.IH[OF this] eq f b Inr show ?thesis by simp
  qed
qed

lemma rfmize_records:
  "rfmize e today s = Inr s' \<Longrightarrow> d \<in> set (rfm_dimensions e) \<Longrightarrow> borders s' d \<noteq> None"
  by (auto simp: rfmize_def Let_def dest: segmentize_all_records)

lemma rfmize_frozen:
  "\<forall>d \<in> set (rfm_dimensions e). borders s d \<noteq> None \<Longrightarrow>
     rfmize e (Some today) s = frozen_all (borders s) (rfm_dimensions e) (metricize today s)"
  using segmentize_all_frozen[of "rfm_dimensions e" "metricize today s" "version e"]
  by (simp add: rfmize_def borders_metricize)

lemma frozen_all_borders: "frozen_all B ds s = Inr s' \<Longrightarrow> borders s' = borders s"
  by (induction ds arbitrary: s) (auto split: sum.splits dest: segmentize_by_borders_borders)

text \<open>
  C1. The claim is that the ratio calculation of \<^verbatim>\<open>save_output\<close> segments the customers
  with borders computed afresh at the prediction date. On the example \<^verbatim>\<open>save_output\<close>
  returns, the prediction date is day 170, and the re-run leaves every customer in
  segment 1 of every dimension with the recency border 0 of the first run; with the
  table of borders emptied, \<^verbatim>\<open>rfmize\<close> at day 170 gives customer A recency segment 2,
  customer B monetary segment 2, and the recency border \<open>-70\<close>.
\<close>

theorem save_output_rerun_not_fresh:
  "\<not> isl (save_output ex_py ex_loaded) \<and>
   max_date ex_primary - prediction_delta ex_primary = 170 \<and>
   map (dimensions \<circ> snd) (users (fst (projr (save_output ex_py ex_loaded))))
     = [[(''recency'', Seg 1), (''frequency'', Seg 1), (''monetary'', Seg 1)],
        [(''recency'', Seg 1), (''frequency'', Seg 1), (''monetary'', Seg 1)]] \<and>
   borders (fst (projr (save_output ex_py ex_loaded))) Recency = Some [(1, 0)] \<and>
   map (dimensions \<circ> snd)
       (users (projr (rfmize ex_py (Some 170) (ex_primary\<lparr>borders := Map.empty\<rparr>))))
     = [[(''recency'', Seg 2), (''frequency'', Seg 1), (''monetary'', Seg 1)],
        [(''recency'', Seg 1), (''frequency'', Seg 1), (''monetary'', Seg 2)]] \<and>
   borders (projr (rfmize ex_py (Some 170) (ex_primary\<lparr>borders := Map.empty\<rparr>))) Recency
     = Some [(1, - 70)]"
  by code_simp

text \<open>
  C1 as amended: in every run of \<^verbatim>\<open>save_output\<close> that returns, the first \<^verbatim>\<open>rfmize\<close>
  records borders for every dimension, and the ratio calculation re-runs \<^verbatim>\<open>metricize\<close>
  at \<^verbatim>\<open>max_date - prediction_delta\<close> and segments every dimension along the path with
  \<^verbatim>\<open>by_borders\<close> true on the borders of the first run; the final users are those of
  this re-run, the final borders are those of the first run, and they are the rows
  of the borders file.
\<close>

theorem save_output_rerun_frozen:
  assumes "save_output e s = Inr (s2, mapping, bo, rs)"
  shows "\<exists>s1 s1'. rfmize e None s = Inr s1 \<and>
           (\<forall>d \<in> set (rfm_dimensions e). borders s1 d \<noteq> None) \<and>
           frozen_all (borders s1) (rfm_dimensions e)
             (metricize (max_date s1 - prediction_delta s1) s1) = Inr s1' \<and>
           users s2 = users s1' \<and> borders s2 = borders s1 \<and> bo = save_borders s1"
proof -
  from assms obtain s1 where p: "rfmize e None s = Inr s1" and r: "rationize e s1 = Inr s2"
    and bo: "bo = save_borders s1"
    by (auto simp: save_output_def split: sum.splits)
  from rfmize_records[OF p] have rec: "\<forall>d \<in> set (rfm_dimensions e). borders s1 d \<noteq> None" by blast
  from r obtain s1' where q: "rfmize e (Some (max_date s1 - prediction_delta s1)) s1 = Inr s1'"
    and u: "users s2 = users s1'" and b: "borders s2 = borders s1'"
    by (auto simp: rationize_def Let_def split: sum.splits prod.splits)
  from q rfmize_frozen[OF rec] have f: "frozen_all (borders s1) (rfm_dimensions e)
             (metricize (max_date s1 - prediction_delta s1) s1) = Inr s1'" by simp
  from frozen_all_borders[OF f] have "borders s1' = borders s1" by (simp add: borders_metricize)
  with p rec f u b bo show ?thesis by auto
qed

theorem save_output_rerun_frozen_witness:
  "borders (fst (projr (save_output ex_py ex_loaded))) = borders (projr (rfmize ex_py None ex_loaded))"
proof -
  let ?x = "save_output ex_py ex_loaded"
  have "\<not> isl ?x" by code_simp
  then have "?x = Inr (fst (projr ?x), fst (snd (projr ?x)), fst (snd (snd (projr ?x))),
      snd (snd (snd (projr ?x))))" by simp
  from save_output_rerun_frozen[OF this] show ?thesis by auto
qed

section \<open>The divisions of rationize\<close>





text \<open>
  C5. The claim is that an empty population at line 293 is reported by an error of
  the program's own and not by a division by zero. In the run below both customers
  order on the maximal date only, so at the prediction date, 30 days earlier, both
  are future customers and \<^verbatim>\<open>metricize\<close> deletes them; \<^verbatim>\<open>save_output\<close> ends in
  ZeroDivisionError.
\<close>

theorem save_output_empty_population_ZeroDivisionError:
  "isl (save_output ex_py (load_input ex_parse_date ex_parse_value ex_rows_one_day (init ex_conf))) \<and>
   fst (projl (save_output ex_py
          (load_input ex_parse_date ex_parse_value ex_rows_one_day (init ex_conf))))
     = ZeroDivisionError \<and>
   users (projr (rfmize ex_py (Some 170) ex_state_one_day)) = [] \<and>
   max_date ex_state_one_day - prediction_delta ex_state_one_day = 170"
  by code_simp

text \<open>
  C5 as amended: whenever the second \<^verbatim>\<open>rfmize\<close> of \<^verbatim>\<open>rationize\<close> returns and leaves no
  user, \<^verbatim>\<open>rationize\<close> raises ZeroDivisionError, from
  \<^verbatim>\<open>total_orders_value / len(self.users)\<close>, and leaves the engine as the second
  \<^verbatim>\<open>rfmize\<close> left it.
\<close>

theorem rationize_empty_population:
  assumes "rfmize e (Some (max_date s - prediction_delta s)) s = Inr s1" and "users s1 = []"
  shows "rationize e s = Inl (ZeroDivisionError, s1)"
  using assms by (simp add: rationize_def fl_div_def)

theorem rationize_empty_population_witness:
  "users (projr (rfmize ex_py (Some (max_date ex_state_one_day - prediction_delta ex_state_one_day))
       ex_state_one_day)) = [] \<and>
   isl (rationize ex_py ex_state_one_day) \<and>
   fst (projl (rationize ex_py ex_state_one_day)) = ZeroDivisionError"
proof -
  have h1: "\<not> isl (rfmize ex_py (Some (max_date ex_state_one_day - prediction_delta ex_state_one_day))
       ex_state_one_day)" by code_simp
  have h2: "users (projr (rfmize ex_py (Some (max_date ex_state_one_day - prediction_delta ex_state_one_day))
       ex_state_one_day)) = []" by code_simp
  from h1 have h3: "rfmize ex_py (Some (max_date ex_state_one_day - prediction_delta ex_state_one_day))
       ex_state_one_day = Inr (projr (rfmize ex_py (Some (max_date ex_state_one_day - prediction_delta ex_state_one_day))
       ex_state_one_day))" by simp
  show ?thesis using rationize_empty_population[OF h3 h2] h2 by simp
qed




section \<open>The uids of the engine\<close>

text \<open>
  The users are a dict, so each uid is held once. In the model this is a property of
  the association list, which \<^verbatim>\<open>load_input\<close> establishes and every method keeps,
  whether it returns or raises.
\<close>

lemma keys_map_entry: "map fst (AList.map_entry k f us) = map fst us"
  by (induction us) auto

lemma keys_fold_map_entry:
  "map fst (fold (\<lambda>ks. AList.map_entry (fst ks) (f (snd ks))) kss us) = map fst us"
  by (induction kss arbitrary: us) (simp_all add: keys_map_entry)

lemma distinct_load_row:
  "distinct (map fst (users s)) \<Longrightarrow> distinct (map fst (users (load_row pd pv r s)))"
  by (simp add: load_row_def Let_def keys_map_entry distinct_update split: option.splits)

lemma distinct_load_input: "distinct (map fst (users (load_input pd pv rows s)))"
proof -
  have "distinct (map fst (users t)) \<Longrightarrow> distinct (map fst (users (fold (load_row pd pv) rows t)))"
    for t
    by (induction rows arbitrary: t) (simp_all add: distinct_load_row)
  then show ?thesis by (simp add: load_input_def)
qed

lemma distinct_fold_delete:
  "distinct (map fst us) \<Longrightarrow> distinct (map fst (fold AList.delete ks us))"
  by (induction ks arbitrary: us) (simp_all add: distinct_delete)

lemma distinct_metricize:
  "distinct (map fst (users s)) \<Longrightarrow> distinct (map fst (users (metricize today s)))"
  by (simp add: metricize_def Let_def distinct_fold_delete comp_def)

lemma keys_collect:
  "(case collect d us of Inl (e, us') \<Rightarrow> map fst us' | Inr (us', uids) \<Rightarrow> map fst us') = map fst us"
  by (induction us) (auto split: option.splits sum.splits metric.splits prod.splits)

lemma keys_frozen_loop:
  "(case frozen_loop d n bs ps seg us of Inl (e, us') \<Rightarrow> map fst us' | Inr us' \<Rightarrow> map fst us')
     = map fst us"
  by (induction ps arbitrary: seg us)
     (auto simp: Let_def keys_map_entry split: option.splits sum.splits prod.splits)

lemma keys_fresh_loop:
  "(case fresh_loop v d cnt n i ps seg max_i prev bs us of
      Inl (e, bs', us') \<Rightarrow> map fst us' | Inr (bs', us') \<Rightarrow> map fst us') = map fst us"
proof (induction ps arbitrary: i seg max_i prev bs us)
  case Nil
  then show ?case by simp
next
  case (Cons p ps)
  show ?case
  proof (cases "of_nat i \<ge> max_i \<and> snd p \<noteq> prev")
    case True
    show ?thesis
    proof (cases "py_div v (cnt - int i) (n - int (seg + 1) + 1)")
      case (Inl e)
      with True show ?thesis by simp
    next
      case (Inr q)
      with True Cons.IH[of "i + 1" "seg + 1" "of_nat i + q" "snd p" "AList.update seg (snd p) bs"
          "AList.map_entry (fst p) (set_dim d (seg + 1)) us"]
      show ?thesis by (simp add: keys_map_entry)
    qed
  next
    case False
    have l: "fresh_loop v d cnt n i (p # ps) seg max_i prev bs us =
        fresh_loop v d cnt n (i + 1) ps seg max_i (snd p) bs
          (AList.map_entry (fst p) (set_dim d seg) us)"
      by (simp only: fresh_loop.simps if_not_P[OF False])
    show ?thesis unfolding l
      using Cons.IH[of "i + 1" seg max_i "snd p" bs "AList.map_entry (fst p) (set_dim d seg) us"]
      by (simp add: keys_map_entry)
  qed
qed

lemma keys_segmentize_by_borders:
  "map fst (users (state_of (segmentize_by_borders d bs s))) = map fst (users s)"
proof (cases "collect d (users s)")
  case (Inl r)
  obtain e us where r: "r = (e, us)" by (cases r)
  with Inl keys_collect[of d "users s"] show ?thesis
    by (simp add: segmentize_by_borders_def)
next
  case (Inr r)
  obtain us uids where r: "r = (us, uids)" by (cases r)
  with Inr keys_collect[of d "users s"] have k: "map fst us = map fst (users s)" by simp
  from keys_frozen_loop[of d "int (length bs) + 1" bs "sort_key snd uids" 1 us] k Inr r
  show ?thesis
    by (auto simp: segmentize_by_borders_def Let_def split: sum.splits prod.splits)
qed

lemma keys_segmentize_fresh:
  "map fst (users (state_of (segmentize_fresh v d s))) = map fst (users s)"
proof (cases "segments_count (conf s) d")
  case None
  then show ?thesis by (simp add: segmentize_fresh_def)
next
  case (Some n)
  show ?thesis
  proof (cases "collect d (users s)")
    case (Inl r)
    obtain e us where r: "r = (e, us)" by (cases r)
    with Inl Some keys_collect[of d "users s"] show ?thesis
      by (simp add: segmentize_fresh_def)
  next
    case (Inr r)
    obtain us uids where r: "r = (us, uids)" by (cases r)
    with Inr keys_collect[of d "users s"] have k: "map fst us = map fst (users s)" by simp
    show ?thesis
    proof (cases "py_div v (int (length uids)) n")
      case (Inl e)
      with Some Inr r k show ?thesis by (simp add: segmentize_fresh_def)
    next
      case m: (Inr max_i)
      show ?thesis
      proof (cases "sort_key snd uids")
        case Nil
        with Some Inr r k m show ?thesis by (simp add: segmentize_fresh_def)
      next
        case (Cons p ps)
        from keys_fresh_loop[of v d "int (length uids)" n 0 "sort_key snd uids" 1 max_i "snd p" "[]" us] k
        have "(case fresh_loop v d (int (length uids)) n 0 (sort_key snd uids) 1 max_i (snd p) [] us of
            Inl (e, bs', us') \<Rightarrow> map fst us' | Inr (bs', us') \<Rightarrow> map fst us') = map fst (users s)"
          by simp
        then have "map fst (users (state_of
           (case fresh_loop v d (int (length uids)) n 0 (sort_key snd uids) 1 max_i (snd p) [] us of
              Inl (e, bs, us') \<Rightarrow>
                Inl (e, s\<lparr>borders := (borders s)(d \<mapsto> bs), users := us'\<rparr>)
            | Inr (bs, us') \<Rightarrow>
                Inr (s\<lparr>borders := (borders s)(d \<mapsto> bs), users := us'\<rparr>)))) = map fst (users s)"
          by (cases "fresh_loop v d (int (length uids)) n 0 (sort_key snd uids) 1 max_i (snd p) [] us")
             (auto simp del: fresh_loop.simps)
        moreover have "segmentize_fresh v d s =
           (case fresh_loop v d (int (length uids)) n 0 (sort_key snd uids) 1 max_i (snd p) [] us of
              Inl (e, bs, us') \<Rightarrow>
                Inl (e, s\<lparr>borders := (borders s)(d \<mapsto> bs), users := us'\<rparr>)
            | Inr (bs, us') \<Rightarrow>
                Inr (s\<lparr>borders := (borders s)(d \<mapsto> bs), users := us'\<rparr>))"
          unfolding segmentize_fresh_def
          by (simp only: Some Inr r m option.case sum.case prod.case Let_def length_sort)
             (simp only: Cons list.case)
        ultimately show ?thesis by simp
      qed
    qed
  qed
qed

lemma keys_segmentize: "map fst (users (state_of (segmentize v d s))) = map fst (users s)"
  by (cases "borders s d")
     (simp_all add: segmentize_def keys_segmentize_fresh keys_segmentize_by_borders)

lemma keys_segmentize_all:
  "map fst (users (state_of (segmentize_all v ds s))) = map fst (users s)"
proof (induction ds arbitrary: s)
  case Nil
  then show ?case by simp
next
  case (Cons d ds)
  show ?case
  proof (cases "segmentize v d s")
    case (Inl r)
    with keys_segmentize[of v d s] show ?thesis by simp
  next
    case (Inr s1)
    with keys_segmentize[of v d s] Cons.IH[of s1] show ?thesis by simp
  qed
qed

lemma distinct_rfmize:
  "distinct (map fst (users s)) \<Longrightarrow> distinct (map fst (users (state_of (rfmize e today s))))"
  by (simp add: rfmize_def Let_def keys_segmentize_all distinct_metricize)

lemma users_rationize:
  "users (state_of (rationize e s)) =
     users (state_of (rfmize e (Some (max_date s - prediction_delta s)) s))"
  by (auto simp: rationize_def Let_def split: sum.splits prod.splits)

lemma later_distinct:
  "later s1 s \<Longrightarrow> distinct (map fst (users s1)) \<Longrightarrow> distinct (map fst (users s))"
proof (induction rule: later.induct)
  case (later_refl s)
  then show ?case by simp
next
  case (later_load_input s s1 pd pv rows)
  then show ?case by (simp add: distinct_load_input)
next
  case (later_metricize s s1 today)
  then show ?case by (simp add: distinct_metricize)
next
  case (later_segmentize s s1 v d')
  then show ?case by (simp add: keys_segmentize)
next
  case (later_rfmize s s1 e today')
  then show ?case by (simp add: distinct_rfmize)
next
  case (later_rationize s s1 e)
  then show ?case by (simp add: users_rationize distinct_rfmize)
qed

lemma distinct_loaded:
  "later (load_input pd pv rows s0) s \<Longrightarrow> distinct (map fst (users s))"
  by (rule later_distinct[OF _ distinct_load_input])

section \<open>The borders and the segments of a fresh segmentize\<close>














































section \<open>The segments of a frozen segmentize\<close>


















end
